theory Spec2Isabelle
  imports Complex_Main "HOL-Library.Product_Lexorder"
begin

section \<open>The task store (orchestrator.py, class TaskQueue)\<close>

text \<open>
  A row of the table \<open>tasks\<close>. The columns are those of the CREATE TABLE statement in
  \<open>_init_db\<close>; the autoincrement \<open>id\<close> is the position of the row in the list.
  TEXT columns are strings, nullable columns are options. The column \<open>depends_on\<close>
  holds \<open>json.dumps\<close> of a list of task ids and is read back with \<open>json.loads\<close>; the
  model keeps the list itself. Timestamps (\<open>CURRENT_TIMESTAMP\<close>, a text
  \<open>YYYY-MM-DD HH:MM:SS\<close> whose text order is the order in time) are seconds.
\<close>

record task =
  task_id :: string
  title :: string
  description :: string
  status :: string
  priority :: int
  retries :: int
  depends_on :: "string list"
  assigned_worker :: "string option"
  branch_name :: "string option"
  result :: "string option"
  error :: "string option"
  created_at :: nat
  started_at :: "nat option"
  completed_at :: "nat option"

text \<open>A row of the table \<open>agent_log\<close>.\<close>

record log_entry =
  log_worker_id :: string
  log_task_id :: string
  log_event_name :: string
  log_message :: string
  log_tokens_used :: int
  log_timestamp :: nat

record db =
  tasks :: "task list"
  agent_log :: "log_entry list"

text \<open>The dictionaries that \<open>get_ready_tasks\<close> builds; \<open>claim_task\<close> adds the key
  \<open>branch_name\<close> to the one it returns.\<close>

record task_dict =
  td_task_id :: string
  td_title :: string
  td_description :: string
  td_priority :: int
  td_branch_name :: "string option"

datatype py_error =
    AttributeError string
  | IntegrityError string
  | SyntaxCheckFailed string
  | RecursionError

text \<open>\<open>log_event\<close>: the INSERT into \<open>agent_log\<close>. The per-task log file it also appends
  to is not part of the store and is left out.\<close>

definition log_event :: "string \<Rightarrow> string \<Rightarrow> string \<Rightarrow> string \<Rightarrow> int \<Rightarrow> nat \<Rightarrow> db \<Rightarrow> db" where
  "log_event worker_id tid event message tokens now d =
     d\<lparr>agent_log := agent_log d @
        [\<lparr>log_worker_id = worker_id, log_task_id = tid, log_event_name = event,
          log_message = message, log_tokens_used = tokens, log_timestamp = now\<rparr>]\<rparr>"

text \<open>\<open>add_task\<close>. The argument \<open>hex\<close> is \<open>uuid.uuid4().hex\<close>. The column \<open>task_id\<close> is
  UNIQUE, so the plain INSERT raises IntegrityError on a collision. The other columns
  take the defaults of the schema.\<close>

definition new_task :: "string \<Rightarrow> string \<Rightarrow> string \<Rightarrow> int \<Rightarrow> string list \<Rightarrow> nat \<Rightarrow> task" where
  "new_task tid ttl desc prio deps now =
     \<lparr>task_id = tid, title = ttl, description = desc, status = ''pending'',
      priority = prio, retries = 0, depends_on = deps, assigned_worker = None,
      branch_name = None, result = None, error = None, created_at = now,
      started_at = None, completed_at = None\<rparr>"

definition add_task ::
  "string \<Rightarrow> string \<Rightarrow> string \<Rightarrow> int \<Rightarrow> string list \<Rightarrow> nat \<Rightarrow> db \<Rightarrow> (py_error + string) \<times> db" where
  "add_task hex ttl desc prio deps now d =
     (let tid = ''task-'' @ take 8 hex in
      if tid \<in> task_id ` set (tasks d) then (Inl (IntegrityError tid), d)
      else (Inr tid, d\<lparr>tasks := tasks d @ [new_task tid ttl desc prio deps now]\<rparr>))"

text \<open>\<open>get_ready_tasks\<close>. The SELECT orders the pending rows by
  \<open>priority ASC, created_at ASC\<close>; rows that tie keep the order of the table. A row
  with an empty dependency list is ready at once; otherwise the COUNT query counts the
  rows whose \<open>task_id\<close> is among the dependencies and whose status is not \<open>done\<close>.\<close>

definition to_dict :: "task \<Rightarrow> task_dict" where
  "to_dict t = \<lparr>td_task_id = task_id t, td_title = title t,
                td_description = description t, td_priority = priority t,
                td_branch_name = None\<rparr>"

definition select_pending :: "db \<Rightarrow> task list" where
  "select_pending d =
     sort_key (\<lambda>t. (priority t, created_at t)) (filter (\<lambda>t. status t = ''pending'') (tasks d))"

definition pending_deps :: "db \<Rightarrow> string list \<Rightarrow> nat" where
  "pending_deps d deps =
     length (filter (\<lambda>t. task_id t \<in> set deps \<and> status t \<noteq> ''done'') (tasks d))"

definition is_ready :: "db \<Rightarrow> task \<Rightarrow> bool" where
  "is_ready d t = (if depends_on t = [] then True else pending_deps d (depends_on t) = 0)"

definition get_ready_tasks :: "db \<Rightarrow> task_dict list" where
  "get_ready_tasks d = map to_dict (filter (is_ready d) (select_pending d))"

text \<open>\<open>claim_task\<close>. The function first takes the snapshot \<open>get_ready_tasks\<close> and then
  runs one UPDATE for \<open>ready_tasks[0]\<close>. The two are separate statements, so another
  worker can change the store in between: \<open>claim_task_update\<close> is the part after the
  snapshot, run on the store as it is at the time of the UPDATE, and \<open>claim_task\<close> is
  the call with no interference.\<close>

definition claim_rowcount :: "db \<Rightarrow> string \<Rightarrow> nat" where
  "claim_rowcount d tid =
     length (filter (\<lambda>t. task_id t = tid \<and> status t = ''pending'') (tasks d))"

definition claim_row :: "string \<Rightarrow> string \<Rightarrow> string \<Rightarrow> nat \<Rightarrow> task \<Rightarrow> task" where
  "claim_row worker_id branch tid now t =
     (if task_id t = tid \<and> status t = ''pending''
      then t\<lparr>status := ''running'', assigned_worker := Some worker_id,
             branch_name := Some branch, started_at := Some now\<rparr>
      else t)"

definition claim_task_update ::
  "string \<Rightarrow> nat \<Rightarrow> task_dict list \<Rightarrow> db \<Rightarrow> task_dict option \<times> db" where
  "claim_task_update worker_id now ready_tasks d =
     (case ready_tasks of
        [] \<Rightarrow> (None, d)
      | tsk # _ \<Rightarrow>
          (let tid = td_task_id tsk;
               branch = ''agent-'' @ take 8 tid
           in if claim_rowcount d tid = 0 then (None, d)
              else (Some (tsk\<lparr>td_branch_name := Some branch\<rparr>),
                    d\<lparr>tasks := map (claim_row worker_id branch tid now) (tasks d)\<rparr>)))"

definition claim_task :: "string \<Rightarrow> nat \<Rightarrow> db \<Rightarrow> task_dict option \<times> db" where
  "claim_task worker_id now d = claim_task_update worker_id now (get_ready_tasks d) d"

text \<open>\<open>complete_task\<close>, \<open>fail_task\<close>, \<open>mark_fix_needed\<close>: one UPDATE each, on the rows
  \<open>WHERE task_id = ?\<close> and nothing else.\<close>

definition complete_task :: "string \<Rightarrow> string \<Rightarrow> string \<Rightarrow> nat \<Rightarrow> db \<Rightarrow> db" where
  "complete_task tid res st now d =
     d\<lparr>tasks := map (\<lambda>t. if task_id t = tid
                           then t\<lparr>status := st, result := Some res, completed_at := Some now\<rparr>
                           else t) (tasks d)\<rparr>"

definition fail_task :: "string \<Rightarrow> string \<Rightarrow> db \<Rightarrow> db" where
  "fail_task tid err d =
     d\<lparr>tasks := map (\<lambda>t. if task_id t = tid
                           then t\<lparr>status := ''pending'', error := Some err,
                                  retries := retries t + 1, started_at := None\<rparr>
                           else t) (tasks d)\<rparr>"

definition mark_fix_needed :: "string \<Rightarrow> string \<Rightarrow> nat \<Rightarrow> db \<Rightarrow> db" where
  "mark_fix_needed tid err now d =
     d\<lparr>tasks := map (\<lambda>t. if task_id t = tid
                           then t\<lparr>status := ''fix_needed'', error := Some err,
                                  completed_at := Some now\<rparr>
                           else t) (tasks d)\<rparr>"

text \<open>The row of a task id (the column is UNIQUE: the first row is the only one).\<close>

definition get_task :: "db \<Rightarrow> string \<Rightarrow> task option" where
  "get_task d tid = find (\<lambda>t. task_id t = tid) (tasks d)"

section \<open>The configuration module (config.py)\<close>

text \<open>
  The module attributes that \<open>config.py\<close> binds: the three imported names and the
  fifteen assignments. \<open>config_getattr\<close> is the attribute lookup \<open>config.NAME\<close>; a name
  the module does not bind gives \<open>None\<close>, which is Python's AttributeError.
\<close>

datatype cfg_value = CInt int | CStr string | CObject

record config =
  MINIMAX_API_KEY :: string
  MINIMAX_BASE_URL :: string
  MINIMAX_MODEL :: string
  PLANNER_MODEL :: string
  RECONCILER_MODEL :: string
  MAX_WORKERS :: int
  MAX_TASKS :: int
  RECONCILER_INTERVAL :: int
  WORKER_TIMEOUT :: int
  MAX_RETRIES :: int
  API_RATE_LIMIT_RPM :: int
  WORKSPACE_DIR :: string
  LOGS_DIR :: string
  DB_PATH :: string
  OUTPUTS_DIR :: string

definition config_getattr :: "config \<Rightarrow> string \<Rightarrow> cfg_value option" where
  "config_getattr c name = map_of
     [(''os'', CObject), (''Path'', CObject), (''load_dotenv'', CObject),
      (''MINIMAX_API_KEY'', CStr (MINIMAX_API_KEY c)),
      (''MINIMAX_BASE_URL'', CStr (MINIMAX_BASE_URL c)),
      (''MINIMAX_MODEL'', CStr (MINIMAX_MODEL c)),
      (''PLANNER_MODEL'', CStr (PLANNER_MODEL c)),
      (''RECONCILER_MODEL'', CStr (RECONCILER_MODEL c)),
      (''MAX_WORKERS'', CInt (MAX_WORKERS c)),
      (''MAX_TASKS'', CInt (MAX_TASKS c)),
      (''RECONCILER_INTERVAL'', CInt (RECONCILER_INTERVAL c)),
      (''WORKER_TIMEOUT'', CInt (WORKER_TIMEOUT c)),
      (''MAX_RETRIES'', CInt (MAX_RETRIES c)),
      (''API_RATE_LIMIT_RPM'', CInt (API_RATE_LIMIT_RPM c)),
      (''WORKSPACE_DIR'', CStr (WORKSPACE_DIR c)),
      (''LOGS_DIR'', CStr (LOGS_DIR c)),
      (''DB_PATH'', CStr (DB_PATH c)),
      (''OUTPUTS_DIR'', CStr (OUTPUTS_DIR c))] name"

text \<open>The values of \<open>config.py\<close> when the environment sets only the API key.\<close>

definition default_config :: config where
  "default_config =
     \<lparr>MINIMAX_API_KEY = ''key'', MINIMAX_BASE_URL = ''https://api.minimax.io/v1'',
      MINIMAX_MODEL = ''MiniMax-M2.5'', PLANNER_MODEL = ''MiniMax-M2.5'',
      RECONCILER_MODEL = ''MiniMax-M2.5'', MAX_WORKERS = 15, MAX_TASKS = 100,
      RECONCILER_INTERVAL = 120, WORKER_TIMEOUT = 300, MAX_RETRIES = 3,
      API_RATE_LIMIT_RPM = 20, WORKSPACE_DIR = ''/home/gary/agentswarm/workspace'',
      LOGS_DIR = ''/home/gary/agentswarm/logs'', DB_PATH = ''/home/gary/agentswarm/db/tasks.db'',
      OUTPUTS_DIR = ''/home/gary/agentswarm/outputs''\<rparr>"

section \<open>The reconciler (agents/reconciler_agent.py)\<close>

text \<open>The format \<open>{elapsed:.0f}\<close>: the number of seconds rounded to an integer, a tie
  going to the even one, with the sign of the number in front. \<open>decimal\<close> puts the
  digits of \<open>n\<close> in front of \<open>acc\<close>.\<close>

function decimal :: "nat \<Rightarrow> string \<Rightarrow> string" where
  "decimal n acc =
     (let acc' = (''0123456789'' ! (n mod 10)) # acc
      in if n div 10 = 0 then acc' else decimal (n div 10) acc')"
  by pat_completeness auto
termination
  by (relation "measure fst") auto

definition round_half_even :: "real \<Rightarrow> int" where
  "round_half_even x =
     (let f = \<lfloor>x\<rfloor>; r = x - of_int f
      in if r < 1 / 2 then f else if 1 / 2 < r then f + 1 else if even f then f else f + 1)"

definition format_0f :: "real \<Rightarrow> string" where
  "format_0f x =
     (if x < 0 then CHR ''-'' # decimal (nat (- round_half_even x)) []
      else decimal (nat (round_half_even x)) [])"

text \<open>An f-string field of a nullable column: \<open>None\<close> prints as the text \<open>None\<close>.\<close>

definition str_opt :: "string option \<Rightarrow> string" where
  "str_opt x = (case x of None \<Rightarrow> ''None'' | Some s \<Rightarrow> s)"

record stalled_task =
  st_task_id :: string
  st_title :: string
  st_worker_id :: "string option"
  st_elapsed :: real

record syntax_result =
  syn_ok :: bool
  syn_output :: string

record sweep_results =
  syntax_check :: syntax_result
  stalled :: "stalled_task list"
  fix_needed :: nat
  fixes_created :: nat

text \<open>
  \<open>check_stalled_workers\<close>. Its first statement reads
  \<open>config.WORKER_TIMEOUT_SECONDS\<close>; the SELECT of the running rows and the loop come
  after it. In the loop a row with no \<open>started_at\<close> is skipped, and a comparison that
  raises (a timeout that is not a number) is swallowed by the bare \<open>except\<close>.
  \<open>local_now\<close> is the reading of \<open>datetime.now()\<close>: the local wall clock, with its
  fraction of a second, in seconds on the scale of the stored timestamps. The stored
  \<open>started_at\<close> is the UTC text of \<open>CURRENT_TIMESTAMP\<close> read as a naive datetime, so
  outside UTC the difference carries the offset of the zone.
\<close>

definition stalled_rows :: "int \<Rightarrow> real \<Rightarrow> task list \<Rightarrow> stalled_task list" where
  "stalled_rows timeout_secs local_now running =
     concat (map (\<lambda>t. case started_at t of
                         None \<Rightarrow> []
                       | Some s \<Rightarrow>
                           (let elapsed = local_now - real s in
                            if elapsed > of_int timeout_secs
                            then [\<lparr>st_task_id = task_id t, st_title = title t,
                                   st_worker_id = assigned_worker t, st_elapsed = elapsed\<rparr>]
                            else [])) running)"

definition check_stalled_workers :: "config \<Rightarrow> real \<Rightarrow> db \<Rightarrow> py_error + stalled_task list" where
  "check_stalled_workers cfg local_now d =
     (case config_getattr cfg ''WORKER_TIMEOUT_SECONDS'' of
        None \<Rightarrow> Inl (AttributeError ''WORKER_TIMEOUT_SECONDS'')
      | Some v \<Rightarrow>
          (let running = filter (\<lambda>t. status t = ''running'') (tasks d) in
           case v of
             CInt timeout_secs \<Rightarrow> Inr (stalled_rows timeout_secs local_now running)
           | _ \<Rightarrow> Inr []))"

text \<open>
  \<open>handle_fix_needed\<close>: the loop over the rows selected with status \<open>fix_needed\<close>.
  \<open>uuids\<close> is the supply of \<open>uuid4().hex\<close> values, \<open>k\<close> the index of the next one. An
  exception of \<open>add_task\<close> leaves the loop with the store as it is by then.
\<close>

fun handle_fix_loop ::
  "(nat \<Rightarrow> string) \<Rightarrow> nat \<Rightarrow> nat \<Rightarrow> task list \<Rightarrow> nat \<Rightarrow> db \<Rightarrow> (py_error + nat) \<times> db" where
  "handle_fix_loop uuids k now [] fixed d = (Inr fixed, d)"
| "handle_fix_loop uuids k now (t # ts) fixed d =
     (let fix_title = ''Fix: '' @ title t;
          fix_desc = ''Fix the issue: '' @ str_opt (error t)
      in case add_task (uuids k) fix_title fix_desc 1 [] now d of
           (Inl e, d1) \<Rightarrow> (Inl e, d1)
         | (Inr new_task_id, d1) \<Rightarrow>
             (let d2 = complete_task (task_id t) (''Replaced by '' @ new_task_id)
                         ''replaced'' now d1;
                  d3 = log_event ''reconciler'' (task_id t) ''fix_created''
                         (''Created '' @ new_task_id @ '' to fix'') 0 now d2
              in handle_fix_loop uuids (k + 1) now ts (fixed + 1) d3))"

definition handle_fix_needed ::
  "(nat \<Rightarrow> string) \<Rightarrow> nat \<Rightarrow> nat \<Rightarrow> db \<Rightarrow> (py_error + nat) \<times> db" where
  "handle_fix_needed uuids k now d =
     handle_fix_loop uuids k now (filter (\<lambda>t. status t = ''fix_needed'') (tasks d)) 0 d"

text \<open>The loop of \<open>run_once\<close> over the stalled tasks: log \<open>stalled\<close>, then \<open>fail_task\<close>.\<close>

fun stall_loop :: "nat \<Rightarrow> stalled_task list \<Rightarrow> db \<Rightarrow> db" where
  "stall_loop now [] d = d"
| "stall_loop now (s # ss) d =
     stall_loop now ss
       (fail_task (st_task_id s) (''Stalled after '' @ format_0f (st_elapsed s) @ ''s'')
          (log_event ''reconciler'' (st_task_id s) ''stalled''
             (''Worker '' @ str_opt (st_worker_id s) @ '' stalled'') 0 now d))"

text \<open>The first part of \<open>run_once\<close>: \<open>syn\<close> is what \<open>check_syntax\<close> returned (the
  outcome of the \<open>compileall\<close> subprocess). The result counts the uuids used.\<close>

definition syntax_step ::
  "syntax_result \<Rightarrow> (nat \<Rightarrow> string) \<Rightarrow> nat \<Rightarrow> db \<Rightarrow> (py_error + nat) \<times> db" where
  "syntax_step syn uuids now d =
     (if \<not> syn_ok syn then
        (case add_task (uuids 0) ''Fix Python syntax errors''
                (''Fix syntax errors: '' @ take 500 (syn_output syn)) 1 [] now d of
           (Inl e, d1) \<Rightarrow> (Inl e, d1)
         | (Inr _, d1) \<Rightarrow>
             (Inr 1, log_event ''reconciler'' ''syntax'' ''error''
                       (take 200 (syn_output syn)) 0 now d1))
      else (Inr 0, d))"

text \<open>\<open>run_once\<close>: syntax check, stall sweep, rework sweep, in this order. An exception
  ends the sweep; what was committed before it stays. \<open>now\<close> is the value of
  \<open>CURRENT_TIMESTAMP\<close> for the statements of the sweep, \<open>local_now\<close> the reading of
  \<open>datetime.now()\<close> in the stall check.\<close>

definition run_once ::
  "config \<Rightarrow> syntax_result \<Rightarrow> (nat \<Rightarrow> string) \<Rightarrow> nat \<Rightarrow> real \<Rightarrow> db
     \<Rightarrow> (py_error + sweep_results) \<times> db" where
  "run_once cfg syn uuids now local_now d =
     (case syntax_step syn uuids now d of
        (Inl e, d1) \<Rightarrow> (Inl e, d1)
      | (Inr k, d1) \<Rightarrow>
          (case check_stalled_workers cfg local_now d1 of
             Inl e \<Rightarrow> (Inl e, d1)
           | Inr stl \<Rightarrow>
               (let d2 = stall_loop now stl d1 in
                case handle_fix_needed uuids k now d2 of
                  (Inl e, d3) \<Rightarrow> (Inl e, d3)
                | (Inr fixes, d3) \<Rightarrow>
                    (Inr \<lparr>syntax_check = syn, stalled = stl, fix_needed = fixes,
                          fixes_created = fixes\<rparr>, d3))))"

section \<open>The worker (agents/worker.py)\<close>

subsection \<open>The rate limiter\<close>

text \<open>
  The state file: absent, unreadable as JSON (or without the key \<open>timestamps\<close>), or a
  list of timestamps. Times are \<open>time.time()\<close> values, modelled as reals; for two Unix
  times the difference \<open>now - t\<close> is exact in double precision, so the comparison with
  \<open>60.0\<close> is the one on reals.
\<close>

datatype rl_file = NoFile | Malformed | Timestamps "real list"

datatype attempt = Granted bool | Wait real

definition read_timestamps :: "rl_file \<Rightarrow> real list" where
  "read_timestamps f = (case f of Timestamps ts \<Rightarrow> ts | _ \<Rightarrow> [])"

definition live :: "real \<Rightarrow> real list \<Rightarrow> real list" where
  "live now ts = filter (\<lambda>t. now - t < 60) ts"

definition rpm_of :: "config \<Rightarrow> nat" where
  "rpm_of cfg = nat (max 1 (API_RATE_LIMIT_RPM cfg))"

text \<open>\<open>max(1, int(rpm * 0.8))\<close>: the product in double precision truncates to
  \<open>4 * rpm div 5\<close>.\<close>

definition warn_threshold_of :: "config \<Rightarrow> nat" where
  "warn_threshold_of cfg = max 1 ((rpm_of cfg * 4) div 5)"

text \<open>
  One pass through the body of \<open>while True\<close> in \<open>_throttle_for_rate_limit\<close>, that is, one
  critical section under the exclusive \<open>flock\<close>: read, drop the old timestamps, then
  either leave the file as it is and ask to wait (\<open>Wait wait_seconds\<close>; the caller
  sleeps \<open>min(wait_seconds, 5.0)\<close> and comes back with a later pass), or append \<open>now\<close>
  and write the file (\<open>Granted approaching\<close>).
\<close>

definition throttle_attempt :: "config \<Rightarrow> real \<Rightarrow> rl_file \<Rightarrow> attempt \<times> rl_file" where
  "throttle_attempt cfg now f =
     (let rpm = rpm_of cfg;
          warn_threshold = warn_threshold_of cfg;
          timestamps = live now (read_timestamps f)
      in if length timestamps \<ge> rpm
         then (Wait (max (1 / 2) (60 - (now - min_list timestamps))), f)
         else (Granted (length timestamps \<ge> warn_threshold),
               Timestamps (timestamps @ [now])))"

text \<open>
  The lock serialises the passes of all processes: a run of the system is the list of
  the clock values of the passes, in lock order, whoever makes them. \<open>throttle_run\<close>
  threads the file through them and collects the times of the reservations granted.
\<close>

fun throttle_run :: "config \<Rightarrow> real list \<Rightarrow> rl_file \<times> real list \<Rightarrow> rl_file \<times> real list" where
  "throttle_run cfg [] s = s"
| "throttle_run cfg (now # nows) (f, granted) =
     (case throttle_attempt cfg now f of
        (Granted _, f') \<Rightarrow> throttle_run cfg nows (f', granted @ [now])
      | (Wait _, f') \<Rightarrow> throttle_run cfg nows (f', granted))"

text \<open>The reservations inside the window of 60 seconds that starts at \<open>a\<close>.\<close>

definition in_window :: "real \<Rightarrow> real list \<Rightarrow> real list" where
  "in_window a ts = filter (\<lambda>t. a \<le> t \<and> t < a + 60) ts"

text \<open>
  The invariants of a run, for the proofs. At every later time the live reservations
  are no more than the live timestamps of the file, no reservation is in the future, and
  no window holds more than \<open>rpm\<close> reservations (\<open>rl_inv\<close>); at every later time the
  file holds at most \<open>rpm\<close> live timestamps (\<open>rl_cap\<close>).
\<close>

definition rl_inv :: "nat \<Rightarrow> real \<Rightarrow> rl_file \<times> real list \<Rightarrow> bool" where
  "rl_inv rpm t0 s =
     (case s of (f, granted) \<Rightarrow>
        (\<forall>T\<ge>t0. length (live T granted) \<le> length (live T (read_timestamps f)))
      \<and> (\<forall>g\<in>set granted. g \<le> t0)
      \<and> (\<forall>a. length (in_window a granted) \<le> rpm))"

definition rl_cap :: "nat \<Rightarrow> real \<Rightarrow> rl_file \<Rightarrow> bool" where
  "rl_cap rpm t0 f = (\<forall>T\<ge>t0. length (live T (read_timestamps f)) \<le> rpm)"

subsection \<open>Paths and \<open>write_files\<close>\<close>

text \<open>
  A \<open>pathlib\<close> path on POSIX: whether it is anchored at the root, and its parts. Parsing
  drops empty parts and \<open>.\<close>, and keeps \<open>..\<close>. The operator \<open>/\<close> (\<open>truediv\<close>) appends
  the parts of a relative right operand, and returns an absolute right operand alone.
\<close>

record ppath =
  absolute :: bool
  parts :: "string list"




text \<open>\<open>Path.suffix\<close>: from the last dot of the final part, unless that dot is the first
  or the last character.\<close>

definition rfind_dot :: "string \<Rightarrow> nat option" where
  "rfind_dot name =
     (if CHR ''.'' \<in> set name
      then Some (length name - 1 - length (takeWhile (\<lambda>c. c \<noteq> CHR ''.'') (rev name)))
      else None)"

definition suffix_of :: "ppath \<Rightarrow> string" where
  "suffix_of p =
     (let name = (if parts p = [] then [] else last (parts p)) in
      case rfind_dot name of
        None \<Rightarrow> []
      | Some i \<Rightarrow> if 0 < i \<and> i < length name - 1 then drop i name else [])"



text \<open>\<open>syntax_check\<close>: \<open>tool\<close> is the outcome of the checker subprocess for the file
  (\<open>py_compile\<close>, \<open>node --check\<close>, \<open>bash -n\<close>); another suffix runs no checker.\<close>

datatype tool_outcome = Passed | CalledProcessError | OtherException

definition syntax_check :: "(ppath \<Rightarrow> tool_outcome) \<Rightarrow> ppath \<Rightarrow> bool" where
  "syntax_check tool file_path =
     (let sfx = suffix_of file_path in
      if sfx = ''.py'' \<or> sfx \<in> set [''.js'', ''.ts'', ''.jsx'', ''.tsx''] \<or> sfx = ''.sh''
      then (case tool file_path of
              Passed \<Rightarrow> True
            | CalledProcessError \<Rightarrow> False
            | OtherException \<Rightarrow> True)
      else True)"














subsection \<open>\<open>commit_and_merge\<close>\<close>

text \<open>
  The git commands \<open>commit_and_merge\<close> runs, in order, and its result.
  \<open>merge_returncode\<close> is the return code of \<open>git merge\<close>, the only one the function
  looks at. The lock and a failure to start git are left out.
\<close>

definition commit_and_merge :: "string \<Rightarrow> string \<Rightarrow> int \<Rightarrow> bool \<times> string list list" where
  "commit_and_merge tid ttl merge_returncode =
     (let branch = ''agent-'' @ take 8 tid;
          commit_msg = ''task: '' @ ttl;
          cmds = [[''git'', ''add'', ''-A''],
                  [''git'', ''commit'', ''-m'', commit_msg],
                  [''git'', ''checkout'', ''main''],
                  [''git'', ''merge'', ''--no-ff'', branch]]
      in if merge_returncode \<noteq> 0
         then (False, cmds @ [[''git'', ''merge'', ''--abort''], [''git'', ''checkout'', branch]])
         else (True, cmds))"

subsection \<open>\<open>parse_response\<close>\<close>

text \<open>
  A Python \<open>str\<close> is a list of code points, so that \<open>[:500]\<close> counts what Python
  counts. \<open>py\<close> turns a literal into such a list.
\<close>

type_synonym pystr = "nat list"


text \<open>What \<open>json.loads\<close> gives: a decoded value, the exception
  \<open>json.JSONDecodeError\<close>, or another exception (RecursionError on deep nesting). The
  decoder is the standard library's and is a parameter of \<open>parse_response\<close>.\<close>

datatype json = JNull | JBool bool | JInt int | JFloat real | JStr pystr
  | JList "json list" | JDict "(pystr \<times> json) list"
















section \<open>Stores and inputs for the examples\<close>

definition empty_db :: db where
  "empty_db = \<lparr>tasks = [], agent_log = []\<rparr>"

text \<open>Two pending tasks without dependencies, \<open>A\<close> before \<open>B\<close> in the order of claim.\<close>

definition d_two :: db where
  "d_two = \<lparr>tasks = [new_task ''task-aaaaaaaa'' ''A'' ''do A'' 1 [] 10,
                     new_task ''task-bbbbbbbb'' ''B'' ''do B'' 2 [] 11],
            agent_log = []\<rparr>"

text \<open>One task, claimed by worker \<open>w1\<close> at time 20.\<close>

definition d_running :: db where
  "d_running =
     \<lparr>tasks = [(new_task ''task-aaaaaaaa'' ''A'' ''do A'' 5 [] 10)
                 \<lparr>status := ''running'', assigned_worker := Some ''w1'',
                  branch_name := Some ''agent-task-aaa'', started_at := Some 20\<rparr>],
      agent_log = []\<rparr>"

text \<open>One task that worker \<open>w1\<close> marked \<open>fix_needed\<close> after a merge conflict.\<close>

definition d_fix :: db where
  "d_fix =
     \<lparr>tasks = [(new_task ''task-bbbbbbbb'' ''B'' ''do B'' 5 [] 10)
                 \<lparr>status := ''fix_needed'', assigned_worker := Some ''w1'',
                  branch_name := Some ''agent-task-bbb'', started_at := Some 20,
                  error := Some ''Merge conflict'', completed_at := Some 30\<rparr>],
      agent_log = []\<rparr>"

text \<open>One pending task whose only dependency is the id of no row.\<close>

definition d_dangling :: db where
  "d_dangling =
     \<lparr>tasks = [new_task ''task-cccccccc'' ''C'' ''do C'' 5 [''task-missing''] 10],
      agent_log = []\<rparr>"

definition uuids_example :: "nat \<Rightarrow> string" where
  "uuids_example k = decimal k [] @ ''c0ffee0123456789abcdef0123456789''"

definition syntax_fine :: syntax_result where
  "syntax_fine = \<lparr>syn_ok = True, syn_output = []\<rparr>"

definition config_rpm0 :: config where
  "config_rpm0 = default_config\<lparr>API_RATE_LIMIT_RPM := 0\<rparr>"

definition config_rpm2 :: config where
  "config_rpm2 = default_config\<lparr>API_RATE_LIMIT_RPM := 2\<rparr>"





section \<open>Facts about the queue\<close>

lemmas queue_defs =
  get_ready_tasks_def select_pending_def is_ready_def pending_deps_def new_task_def to_dict_def
  claim_task_def claim_task_update_def claim_rowcount_def claim_row_def Let_def

lemma pending_deps_zero_iff:
  "pending_deps d deps = 0 \<longleftrightarrow>
     (\<forall>u \<in> set (tasks d). task_id u \<in> set deps \<longrightarrow> status u = ''done'')"
  by (auto simp: pending_deps_def filter_empty_conv)

lemma set_select_pending:
  "set (select_pending d) = {t \<in> set (tasks d). status t = ''pending''}"
  by (auto simp: select_pending_def)

lemma set_get_ready_tasks:
  "set (get_ready_tasks d) =
     to_dict ` {t \<in> set (tasks d). status t = ''pending'' \<and> is_ready d t}"
  by (auto simp: get_ready_tasks_def set_select_pending)

lemma claim_rowcount_pos:
  "t \<in> set (tasks d) \<Longrightarrow> status t = ''pending'' \<Longrightarrow> claim_rowcount d (task_id t) \<noteq> 0"
  by (auto simp: claim_rowcount_def filter_empty_conv)

lemma ready_head_rowcount:
  assumes "get_ready_tasks d = c # cs"
  shows "claim_rowcount d (td_task_id c) \<noteq> 0"
proof -
  have "c \<in> set (get_ready_tasks d)" using assms by simp
  then obtain t where t: "t \<in> set (tasks d)" "status t = ''pending''" "c = to_dict t"
    by (auto simp: set_get_ready_tasks)
  then show ?thesis using claim_rowcount_pos[of t d] by (simp add: to_dict_def)
qed

lemma get_task_map:
  assumes "\<And>t. task_id (f t) = task_id t"
  shows "get_task (d\<lparr>tasks := map f (tasks d)\<rparr>) tid = map_option f (get_task d tid)"
proof -
  have "find (\<lambda>t. task_id t = tid) (map f ts) = map_option f (find (\<lambda>t. task_id t = tid) ts)" for ts
    by (induction ts) (auto simp: assms)
  then show ?thesis by (simp add: get_task_def)
qed

lemma get_task_fail_task:
  "get_task (fail_task tid err d) tid =
     map_option (\<lambda>t. t\<lparr>status := ''pending'', error := Some err, retries := retries t + 1,
                        started_at := None\<rparr>) (get_task d tid)"
proof -
  have "get_task (fail_task tid err d) tid =
        map_option (\<lambda>t. if task_id t = tid
                          then t\<lparr>status := ''pending'', error := Some err,
                                 retries := retries t + 1, started_at := None\<rparr>
                          else t) (get_task d tid)"
    unfolding fail_task_def by (rule get_task_map) simp
  moreover have "\<And>t. get_task d tid = Some t \<Longrightarrow> task_id t = tid"
    by (auto simp: get_task_def find_Some_iff)
  ultimately show ?thesis by (cases "get_task d tid") auto
qed

lemma get_task_complete_task:
  "get_task (complete_task tid res st now d) tid =
     map_option (\<lambda>t. t\<lparr>status := st, result := Some res, completed_at := Some now\<rparr>)
       (get_task d tid)"
proof -
  have "get_task (complete_task tid res st now d) tid =
        map_option (\<lambda>t. if task_id t = tid
                          then t\<lparr>status := st, result := Some res, completed_at := Some now\<rparr>
                          else t) (get_task d tid)"
    unfolding complete_task_def by (rule get_task_map) simp
  moreover have "\<And>t. get_task d tid = Some t \<Longrightarrow> task_id t = tid"
    by (auto simp: get_task_def find_Some_iff)
  ultimately show ?thesis by (cases "get_task d tid") auto
qed

section \<open>Claims about the queue\<close>

text \<open>
  Claim C10. A pending task that lists a dependency whose id is the id of no row is
  ready all the same: the COUNT query counts rows, a missing row is never counted, so
  the dangling dependency counts as satisfied. With the other listed dependencies
  \<open>done\<close>, the count is zero and the task is in the result of \<open>get_ready_tasks\<close>.
\<close>

theorem dangling_dependency_is_ready:
  assumes "t \<in> set (tasks d)" and "status t = ''pending''"
    and "dep \<in> set (depends_on t)" and "dep \<notin> task_id ` set (tasks d)"
    and "\<forall>u \<in> set (tasks d). task_id u \<in> set (depends_on t) \<longrightarrow> status u = ''done''"
  shows "pending_deps d [dep] = 0 \<and> pending_deps d (depends_on t) = 0
         \<and> to_dict t \<in> set (get_ready_tasks d)"
proof -
  have a: "pending_deps d [dep] = 0"
    using assms(4) by (auto simp: pending_deps_def filter_empty_conv)
  have b: "pending_deps d (depends_on t) = 0"
    using assms(5) by (simp add: pending_deps_zero_iff)
  have "is_ready d t" using b by (simp add: is_ready_def)
  then have "to_dict t \<in> set (get_ready_tasks d)"
    using assms(1,2) by (auto simp: set_get_ready_tasks)
  with a b show ?thesis by simp
qed

lemma d_dangling_eval:
  "get_ready_tasks d_dangling = [\<lparr>td_task_id = ''task-cccccccc'', td_title = ''C'', td_description = ''do C'', td_priority = 5, td_branch_name = None\<rparr>]"
  by (simp add: d_dangling_def get_ready_tasks_def select_pending_def is_ready_def pending_deps_def new_task_def to_dict_def)

theorem dangling_dependency_is_ready_witness:
  "pending_deps d_dangling [''task-missing''] = 0
   \<and> to_dict (new_task ''task-cccccccc'' ''C'' ''do C'' 5 [''task-missing''] 10)
       \<in> set (get_ready_tasks d_dangling)
   \<and> map_option td_task_id (fst (claim_task ''w1'' 20 d_dangling)) = Some ''task-cccccccc''"
proof -
  let ?t = "new_task ''task-cccccccc'' ''C'' ''do C'' 5 [''task-missing''] 10"
  have 1: "?t \<in> set (tasks d_dangling)" by (simp add: d_dangling_def)
  have 2: "status ?t = ''pending''" by (simp add: new_task_def)
  have 3: "''task-missing'' \<in> set (depends_on ?t)" by (simp add: new_task_def)
  have 4: "''task-missing'' \<notin> task_id ` set (tasks d_dangling)"
    by (simp add: d_dangling_def new_task_def)
  have 5: "\<forall>u \<in> set (tasks d_dangling). task_id u \<in> set (depends_on ?t) \<longrightarrow> status u = ''done''"
    by (simp add: d_dangling_def new_task_def)
  have 6: "map_option td_task_id (fst (claim_task ''w1'' 20 d_dangling)) = Some ''task-cccccccc''"
    by (simp add: d_dangling_def queue_defs)
  show ?thesis using dangling_dependency_is_ready[OF 1 2 3 4 5] 6 by simp
qed

text \<open>
  Claim C1 as stated fails. Worker \<open>w2\<close> takes its snapshot of \<open>d_two\<close> (candidates \<open>A\<close>
  then \<open>B\<close>); worker \<open>w1\<close> claims \<open>A\<close> before the UPDATE of \<open>w2\<close> runs. The UPDATE of
  \<open>w2\<close> for \<open>A\<close> affects no row and \<open>w2\<close> gets \<open>None\<close>, although the UPDATE for the
  next candidate \<open>B\<close> would affect one row: there is no loop over the candidates.
\<close>

theorem claim_stops_at_first_candidate_counterexample:
  "get_ready_tasks d_two = [to_dict (new_task ''task-aaaaaaaa'' ''A'' ''do A'' 1 [] 10), to_dict (new_task ''task-bbbbbbbb'' ''B'' ''do B'' 2 [] 11)]
   \<and> fst (claim_task_update ''w2'' 21 (get_ready_tasks d_two) (snd (claim_task ''w1'' 20 d_two))) = None
   \<and> claim_rowcount (snd (claim_task ''w1'' 20 d_two)) ''task-bbbbbbbb'' = 1"
  by (simp add: d_two_def queue_defs)

text \<open>
  Claim C1, amended. \<open>claim_task\<close> attempts the conditional UPDATE for the first
  candidate of the snapshot only: the candidates after it have no influence on the
  result, \<open>None\<close> is returned exactly when the snapshot is empty or the UPDATE of the
  first candidate affects no row, and the store is then unchanged. When nothing
  interferes between snapshot and UPDATE, \<open>None\<close> means that no task was ready.
\<close>

theorem claim_tries_first_candidate_only:
  "claim_task_update w now [] d = (None, d)
   \<and> claim_task_update w now (c # cs) d = claim_task_update w now [c] d
   \<and> (fst (claim_task_update w now (c # cs) d) = None \<longleftrightarrow> claim_rowcount d (td_task_id c) = 0)
   \<and> (fst (claim_task_update w now (c # cs) d) = None \<longrightarrow> snd (claim_task_update w now (c # cs) d) = d)
   \<and> (fst (claim_task w now d) = None \<longleftrightarrow> get_ready_tasks d = [])"
proof -
  have "fst (claim_task w now d) = None \<longleftrightarrow> get_ready_tasks d = []"
  proof (cases "get_ready_tasks d")
    case Nil
    then show ?thesis by (simp add: claim_task_def claim_task_update_def)
  next
    case (Cons c cs)
    then show ?thesis using ready_head_rowcount[OF Cons]
      by (simp add: claim_task_def claim_task_update_def Let_def)
  qed
  then show ?thesis by (simp add: claim_task_update_def Let_def)
qed

theorem claim_tries_first_candidate_only_witness:
  "fst (claim_task_update ''w2'' 21 (get_ready_tasks d_two) (snd (claim_task ''w1'' 20 d_two))) = None
   \<and> snd (claim_task_update ''w2'' 21 (get_ready_tasks d_two) (snd (claim_task ''w1'' 20 d_two)))
       = snd (claim_task ''w1'' 20 d_two)"
proof -
  let ?a = "to_dict (new_task ''task-aaaaaaaa'' ''A'' ''do A'' 1 [] 10)"
  let ?b = "to_dict (new_task ''task-bbbbbbbb'' ''B'' ''do B'' 2 [] 11)"
  let ?d1 = "snd (claim_task ''w1'' 20 d_two)"
  have r: "get_ready_tasks d_two = ?a # [?b]"
    by (simp add: d_two_def queue_defs)
  have z: "claim_rowcount ?d1 (td_task_id ?a) = 0"
    by (simp add: d_two_def queue_defs)
  have T: "(fst (claim_task_update ''w2'' 21 (?a # [?b]) ?d1) = None
              \<longleftrightarrow> claim_rowcount ?d1 (td_task_id ?a) = 0)
         \<and> (fst (claim_task_update ''w2'' 21 (?a # [?b]) ?d1) = None
              \<longrightarrow> snd (claim_task_update ''w2'' 21 (?a # [?b]) ?d1) = ?d1)"
    using claim_tries_first_candidate_only[of "''w2''" 21 ?d1 ?a "[?b]"] by blast
  show ?thesis unfolding r using T z by blast
qed

text \<open>
  Claim C2 as stated fails. Task \<open>task-aaaaaaaa\<close> is running for worker \<open>w1\<close>; the
  stall sweep's \<open>fail_task\<close> puts it back to \<open>pending\<close>; the late \<open>complete_task\<close> of
  \<open>w1\<close> then sets it to \<open>done\<close>. The UPDATE of \<open>complete_task\<close> has the condition
  \<open>WHERE task_id = ?\<close> only: it does not look at the status or at the worker.
\<close>

theorem complete_after_stall_sweep_counterexample:
  "map status (tasks (fail_task ''task-aaaaaaaa'' ''Stalled after 980s'' d_running)) = [''pending'']
   \<and> map status (tasks (complete_task ''task-aaaaaaaa'' ''{}'' ''done'' 1100
          (fail_task ''task-aaaaaaaa'' ''Stalled after 980s'' d_running))) = [''done'']
   \<and> complete_task ''task-aaaaaaaa'' ''{}'' ''done'' 1100
          (fail_task ''task-aaaaaaaa'' ''Stalled after 980s'' d_running)
       \<noteq> fail_task ''task-aaaaaaaa'' ''Stalled after 980s'' d_running"
  by (simp add: d_running_def fail_task_def complete_task_def new_task_def)

text \<open>
  Claim C2, amended. For a running task that \<open>fail_task\<close> has put back to \<open>pending\<close>, a
  later \<open>complete_task(T, result, 'done')\<close> sets \<open>status\<close> to \<open>done\<close>, \<open>result\<close> to the
  result and \<open>completed_at\<close> to the time of the call; the other fields keep their
  values of after the sweep: \<open>retries\<close> one more than before, \<open>error\<close> the sweep's
  message, \<open>started_at\<close> NULL, and the worker and branch of the claim.
\<close>

theorem complete_after_stall_sweep:
  assumes "get_task d tid = Some t" and "status t = ''running''"
  shows "get_task (fail_task tid err d) tid
           = Some (t\<lparr>status := ''pending'', error := Some err, retries := retries t + 1,
                     started_at := None\<rparr>)
         \<and> get_task (complete_task tid res ''done'' now (fail_task tid err d)) tid
           = Some (t\<lparr>status := ''done'', error := Some err, retries := retries t + 1,
                     started_at := None, result := Some res, completed_at := Some now\<rparr>)"
  using assms(1) by (simp add: get_task_complete_task get_task_fail_task)

theorem complete_after_stall_sweep_witness:
  "get_task (complete_task ''task-aaaaaaaa'' ''{}'' ''done'' 1100
       (fail_task ''task-aaaaaaaa'' ''Stalled after 980s'' d_running)) ''task-aaaaaaaa''
   = Some \<lparr>task_id = ''task-aaaaaaaa'', title = ''A'', description = ''do A'',
           status = ''done'', priority = 5, retries = 1, depends_on = [],
           assigned_worker = Some ''w1'', branch_name = Some ''agent-task-aaa'',
           result = Some ''{}'', error = Some ''Stalled after 980s'', created_at = 10,
           started_at = None, completed_at = Some 1100\<rparr>"
proof -
  let ?t = "(new_task ''task-aaaaaaaa'' ''A'' ''do A'' 5 [] 10)
                 \<lparr>status := ''running'', assigned_worker := Some ''w1'',
                  branch_name := Some ''agent-task-aaa'', started_at := Some 20\<rparr>"
  have 1: "get_task d_running ''task-aaaaaaaa'' = Some ?t"
    by (simp add: get_task_def d_running_def new_task_def)
  have 2: "status ?t = ''running''" by simp
  show ?thesis
    using complete_after_stall_sweep[OF 1 2, of "''Stalled after 980s''" "''{}''" 1100]
    by (simp add: new_task_def)
qed

text \<open>
  Claim C7 as stated fails: a second \<open>complete_task\<close> with the same result, at a later
  time, writes \<open>completed_at\<close> again.
\<close>

theorem complete_twice_counterexample:
  "map completed_at (tasks (complete_task ''task-aaaaaaaa'' ''{}'' ''done'' 100 d_running)) = [Some 100]
   \<and> map completed_at (tasks (complete_task ''task-aaaaaaaa'' ''{}'' ''done'' 200
         (complete_task ''task-aaaaaaaa'' ''{}'' ''done'' 100 d_running))) = [Some 200]
   \<and> complete_task ''task-aaaaaaaa'' ''{}'' ''done'' 200
         (complete_task ''task-aaaaaaaa'' ''{}'' ''done'' 100 d_running)
       \<noteq> complete_task ''task-aaaaaaaa'' ''{}'' ''done'' 100 d_running"
  by (simp add: d_running_def complete_task_def new_task_def)

text \<open>
  Claim C7, amended. A second \<open>complete(t, r, done)\<close> raises no error and changes no
  field of the stored state but \<open>completed_at\<close> of the task, which becomes the time of
  the second call; at the same time value it changes nothing.
\<close>

theorem complete_twice_changes_completed_at_only:
  "complete_task tid r ''done'' now2 (complete_task tid r ''done'' now1 d)
     = (complete_task tid r ''done'' now1 d)
         \<lparr>tasks := map (\<lambda>t. if task_id t = tid then t\<lparr>completed_at := Some now2\<rparr> else t)
                       (tasks (complete_task tid r ''done'' now1 d))\<rparr>
   \<and> complete_task tid r ''done'' now1 (complete_task tid r ''done'' now1 d)
     = complete_task tid r ''done'' now1 d"
  by (simp add: complete_task_def comp_def cong: if_cong map_cong)

text \<open>
  Claim C9 as stated fails. \<open>add_task\<close> makes the id \<open>task-1a2b3c4d\<close> from the uuid; the
  branch recorded at the claim is \<open>agent-task-1a2\<close>, the first 8 characters of the id
  after \<open>agent-\<close>, and not \<open>agent-1a2b3c4d\<close>, the first 8 hex characters.
\<close>

theorem branch_name_hex_counterexample:
  "fst (add_task ''1a2b3c4d5e6f47089a0b1c2d3e4f5a6b'' ''T'' ''do T'' 5 [] 10 empty_db)
     = Inr ''task-1a2b3c4d''
   \<and> map_option td_branch_name
        (fst (claim_task ''w1'' 20
           (snd (add_task ''1a2b3c4d5e6f47089a0b1c2d3e4f5a6b'' ''T'' ''do T'' 5 [] 10 empty_db))))
     = Some (Some ''agent-task-1a2'')
   \<and> map branch_name (tasks (snd (claim_task ''w1'' 20
           (snd (add_task ''1a2b3c4d5e6f47089a0b1c2d3e4f5a6b'' ''T'' ''do T'' 5 [] 10 empty_db)))))
     = [Some ''agent-task-1a2'']
   \<and> ''agent-task-1a2'' \<noteq> ''agent-'' @ take 8 ''1a2b3c4d5e6f47089a0b1c2d3e4f5a6b''"
  by (simp add: add_task_def empty_db_def queue_defs)

lemma claim_task_update_Some:
  assumes "claim_task_update w now rs d = (Some tsk, d')"
  shows "td_branch_name tsk = Some (''agent-'' @ take 8 (td_task_id tsk))
       \<and> claim_rowcount d (td_task_id tsk) \<noteq> 0
       \<and> d' = d\<lparr>tasks := map (claim_row w (''agent-'' @ take 8 (td_task_id tsk)) (td_task_id tsk) now) (tasks d)\<rparr>"
  using assms
  by (cases rs) (auto simp: claim_task_update_def Let_def split: if_splits)

text \<open>
  Claim C9, amended. For every claimed task the branch name returned by the claim,
  recorded in the claimed row and merged by \<open>commit_and_merge\<close> is \<open>agent-\<close> followed by
  the first 8 characters of \<open>task_id\<close>; it is a function of \<open>task_id\<close> alone. For an id
  made by \<open>add_task\<close> that is \<open>agent-task-\<close> and the first 3 hex characters.
\<close>

theorem branch_name_from_task_id:
  assumes "claim_task w now d = (Some tsk, d')"
  shows "td_branch_name tsk = Some (''agent-'' @ take 8 (td_task_id tsk))
       \<and> (\<exists>t. t \<in> set (tasks d') \<and> task_id t = td_task_id tsk \<and> status t = ''running''
              \<and> assigned_worker t = Some w
              \<and> branch_name t = Some (''agent-'' @ take 8 (td_task_id tsk)))
       \<and> [''git'', ''merge'', ''--no-ff'', ''agent-'' @ take 8 (td_task_id tsk)]
            \<in> set (snd (commit_and_merge (td_task_id tsk) ttl rc))
       \<and> ''agent-'' @ take 8 (''task-'' @ take 8 hex) = ''agent-task-'' @ take 3 hex"
proof -
  let ?tid = "td_task_id tsk"
  let ?b = "''agent-'' @ take 8 ?tid"
  from assms have u: "claim_task_update w now (get_ready_tasks d) d = (Some tsk, d')"
    by (simp add: claim_task_def)
  note f = claim_task_update_Some[OF u]
  from f have "claim_rowcount d ?tid \<noteq> 0" by simp
  then obtain t0 where t0: "t0 \<in> set (tasks d)" "task_id t0 = ?tid" "status t0 = ''pending''"
    by (auto simp: claim_rowcount_def filter_empty_conv)
  let ?t = "claim_row w ?b ?tid now t0"
  have "?t \<in> set (tasks d')" using f t0 by simp
  moreover have "task_id ?t = ?tid \<and> status ?t = ''running'' \<and> assigned_worker ?t = Some w
                 \<and> branch_name ?t = Some ?b"
    using t0 by (simp add: claim_row_def)
  ultimately have ex: "\<exists>t. t \<in> set (tasks d') \<and> task_id t = ?tid \<and> status t = ''running''
              \<and> assigned_worker t = Some w \<and> branch_name t = Some ?b" by blast
  have git: "[''git'', ''merge'', ''--no-ff'', ?b] \<in> set (snd (commit_and_merge ?tid ttl rc))"
    by (simp add: commit_and_merge_def Let_def)
  have hx: "''agent-'' @ take 8 (''task-'' @ take 8 hex) = ''agent-task-'' @ take 3 hex"
    by (simp add: min_def)
  from f ex git hx show ?thesis by blast
qed

theorem branch_name_from_task_id_witness:
  "td_branch_name \<lparr>td_task_id = ''task-1a2b3c4d'', td_title = ''T'', td_description = ''do T'',
       td_priority = 5, td_branch_name = Some ''agent-task-1a2''\<rparr> = Some ''agent-task-1a2''
   \<and> [''git'', ''merge'', ''--no-ff'', ''agent-task-1a2'']
        \<in> set (snd (commit_and_merge ''task-1a2b3c4d'' ''T'' 0))"
proof -
  let ?d = "snd (add_task ''1a2b3c4d5e6f47089a0b1c2d3e4f5a6b'' ''T'' ''do T'' 5 [] 10 empty_db)"
  let ?tsk = "\<lparr>td_task_id = ''task-1a2b3c4d'', td_title = ''T'', td_description = ''do T'',
       td_priority = 5, td_branch_name = Some ''agent-task-1a2''\<rparr>"
  have c: "claim_task ''w1'' 20 ?d = (Some ?tsk, snd (claim_task ''w1'' 20 ?d))"
    by (simp add: add_task_def empty_db_def queue_defs)
  show ?thesis using branch_name_from_task_id[OF c, of "''T''" 0] by simp
qed

section \<open>Claims about the reconciler\<close>

lemma check_stalled_workers_raises:
  "check_stalled_workers cfg local_now d = Inl (AttributeError ''WORKER_TIMEOUT_SECONDS'')"
  by (simp add: check_stalled_workers_def config_getattr_def)

lemma run_once_raises:
  "run_once cfg \<lparr>syn_ok = True, syn_output = out\<rparr> uuids now local_now d
     = (Inl (AttributeError ''WORKER_TIMEOUT_SECONDS''), d)"
  by (simp add: run_once_def syntax_step_def check_stalled_workers_raises)

text \<open>
  Claim C3 on the code. Task \<open>task-aaaaaaaa\<close> has been running for 980 seconds, the
  worker timeout is 300. The sweep \<open>run_once\<close> ends with AttributeError, since
  \<open>config.py\<close> binds \<open>WORKER_TIMEOUT\<close> and not \<open>WORKER_TIMEOUT_SECONDS\<close>: the store is
  as before, with no \<open>stalled\<close> event and the task still running. The loop of the sweep,
  run on the stalled rows for the timeout the configuration has, would log \<open>stalled\<close>
  and put the task back to \<open>pending\<close> with \<open>retries = 1\<close>.
\<close>

theorem stall_sweep_raises_attribute_error:
  "tasks d_running = [(new_task ''task-aaaaaaaa'' ''A'' ''do A'' 5 [] 10)
                 \<lparr>status := ''running'', assigned_worker := Some ''w1'',
                  branch_name := Some ''agent-task-aaa'', started_at := Some 20\<rparr>]
   \<and> 1000 - real 20 > of_int (WORKER_TIMEOUT default_config)
   \<and> run_once default_config syntax_fine uuids_example 1000 1000 d_running
       = (Inl (AttributeError ''WORKER_TIMEOUT_SECONDS''), d_running)
   \<and> stall_loop 1000 (stalled_rows (WORKER_TIMEOUT default_config) 1000 (tasks d_running)) d_running
       = \<lparr>tasks = [(new_task ''task-aaaaaaaa'' ''A'' ''do A'' 5 [] 10)
                 \<lparr>status := ''pending'', assigned_worker := Some ''w1'',
                  branch_name := Some ''agent-task-aaa'', started_at := None,
                  retries := 1, error := Some ''Stalled after 980s''\<rparr>],
          agent_log = [\<lparr>log_worker_id = ''reconciler'', log_task_id = ''task-aaaaaaaa'',
             log_event_name = ''stalled'', log_message = ''Worker w1 stalled'',
             log_tokens_used = 0, log_timestamp = 1000\<rparr>]\<rparr>"
  by (simp add: run_once_raises syntax_fine_def)
     (simp add: d_running_def default_config_def stalled_rows_def new_task_def fail_task_def
        log_event_def format_0f_def round_half_even_def str_opt_def Let_def)

text \<open>
  Claim C5 on the code. The store holds one task in \<open>fix_needed\<close>. The sweep \<open>run_once\<close>
  ends with the AttributeError of the stall check, before \<open>handle_fix_needed\<close> is
  called: no task is added and the original stays \<open>fix_needed\<close>. \<open>handle_fix_needed\<close>
  alone does what the claim says: one new pending task \<open>Fix: B\<close> with description
  \<open>Fix the issue: Merge conflict\<close> and priority 1, the original \<open>replaced\<close>, and a
  \<open>fix_created\<close> event.
\<close>

theorem rework_sweep_not_reached:
  "map status (tasks d_fix) = [''fix_needed'']
   \<and> run_once default_config syntax_fine uuids_example 1000 1000 d_fix
       = (Inl (AttributeError ''WORKER_TIMEOUT_SECONDS''), d_fix)
   \<and> handle_fix_needed uuids_example 0 1000 d_fix
       = (Inr 1,
          \<lparr>tasks = [(new_task ''task-bbbbbbbb'' ''B'' ''do B'' 5 [] 10)
                 \<lparr>status := ''replaced'', assigned_worker := Some ''w1'',
                  branch_name := Some ''agent-task-bbb'', started_at := Some 20,
                  error := Some ''Merge conflict'', completed_at := Some 1000,
                  result := Some ''Replaced by task-0c0ffee0''\<rparr>,
                new_task ''task-0c0ffee0'' ''Fix: B'' ''Fix the issue: Merge conflict'' 1 [] 1000],
           agent_log = [\<lparr>log_worker_id = ''reconciler'', log_task_id = ''task-bbbbbbbb'',
             log_event_name = ''fix_created'', log_message = ''Created task-0c0ffee0 to fix'',
             log_tokens_used = 0, log_timestamp = 1000\<rparr>]\<rparr>)"
  by (simp add: run_once_raises syntax_fine_def)
     (simp add: d_fix_def handle_fix_needed_def add_task_def complete_task_def log_event_def
        new_task_def uuids_example_def str_opt_def Let_def)

section \<open>Claims about the rate limiter\<close>

lemma live_live: "now \<le> T \<Longrightarrow> live T (live now ts) = live T ts"
  by (induction ts) (auto simp: live_def)

lemma length_live_le: "now \<le> T \<Longrightarrow> length (live T ts) \<le> length (live now ts)"
proof -
  assume "now \<le> T"
  then have "live T ts = live T (live now ts)" by (simp add: live_live)
  moreover have "length (live T (live now ts)) \<le> length (live now ts)"
    unfolding live_def by (rule length_filter_le)
  ultimately show ?thesis by simp
qed

lemma live_snoc: "live T (ts @ [x]) = live T ts @ live T [x]"
  by (simp add: live_def)

lemma rl_invD:
  assumes "rl_inv rpm t0 (f, granted)"
  shows "\<And>T. t0 \<le> T \<Longrightarrow> length (live T granted) \<le> length (live T (read_timestamps f))"
    and "\<And>g. g \<in> set granted \<Longrightarrow> g \<le> t0"
    and "\<And>a. length (in_window a granted) \<le> rpm"
  using assms unfolding rl_inv_def prod.case by blast+

lemma in_window_le_live:
  assumes "\<forall>g\<in>set granted. g \<le> now" "a \<le> now" "now < a + 60"
  shows "length (in_window a granted) \<le> length (live now granted)"
proof -
  have "in_window a granted = in_window a (live now granted)"
    using assms by (induction granted) (auto simp: in_window_def live_def)
  then show ?thesis by (simp add: in_window_def)
qed

lemma throttle_attempt_full:
  assumes "length (live now (read_timestamps f)) \<ge> rpm_of cfg"
  shows "throttle_attempt cfg now f
           = (Wait (max (1 / 2) (60 - (now - min_list (live now (read_timestamps f))))), f)"
  using assms by (simp add: throttle_attempt_def Let_def)

lemma throttle_attempt_free:
  assumes "length (live now (read_timestamps f)) < rpm_of cfg"
  shows "throttle_attempt cfg now f
           = (Granted (length (live now (read_timestamps f)) \<ge> warn_threshold_of cfg),
              Timestamps (live now (read_timestamps f) @ [now]))"
  using assms by (simp add: throttle_attempt_def Let_def)

lemma throttle_run_one:
  "throttle_run cfg [now] (f, granted)
     = (if length (live now (read_timestamps f)) \<ge> rpm_of cfg then (f, granted)
        else (Timestamps (live now (read_timestamps f) @ [now]), granted @ [now]))"
  by (simp add: throttle_attempt_def Let_def)

lemma rl_inv_step:
  assumes inv: "rl_inv (rpm_of cfg) t0 (f, granted)" and le: "t0 \<le> now"
  shows "rl_inv (rpm_of cfg) now (throttle_run cfg [now] (f, granted))"
proof (cases "length (live now (read_timestamps f)) \<ge> rpm_of cfg")
  case True
  then have "throttle_run cfg [now] (f, granted) = (f, granted)"
    by (simp add: throttle_run_one del: throttle_run.simps)
  moreover have "rl_inv (rpm_of cfg) now (f, granted)"
    using rl_invD[OF inv] le unfolding rl_inv_def prod.case
    by (meson order_trans)
  ultimately show ?thesis by simp
next
  case False
  let ?ts = "read_timestamps f"
  have lt: "length (live now ?ts) < rpm_of cfg" using False by simp
  have run: "throttle_run cfg [now] (f, granted)
               = (Timestamps (live now ?ts @ [now]), granted @ [now])"
    using False by (simp add: throttle_run_one del: throttle_run.simps)
  note J = rl_invD(1)[OF inv] and G = rl_invD(2)[OF inv] and W = rl_invD(3)[OF inv]
  have 1: "length (live T (granted @ [now])) \<le> length (live T (live now ?ts @ [now]))"
    if "T \<ge> now" for T
  proof -
    have "live T (live now ?ts) = live T ?ts" using that by (rule live_live)
    moreover have "length (live T granted) \<le> length (live T ?ts)"
      using that le by (intro J) simp
    ultimately show ?thesis by (simp add: live_snoc)
  qed
  have 3: "g \<le> now" if "g \<in> set (granted @ [now])" for g
    using that G le by fastforce
  have 4: "length (in_window a (granted @ [now])) \<le> rpm_of cfg" for a
  proof (cases "a \<le> now \<and> now < a + 60")
    case True
    have "\<forall>g\<in>set granted. g \<le> now" using G le by fastforce
    then have "length (in_window a granted) \<le> length (live now granted)"
      using True by (intro in_window_le_live) auto
    also have "\<dots> \<le> length (live now ?ts)" using J[of now] le by simp
    finally have "length (in_window a granted) < rpm_of cfg" using lt by simp
    then show ?thesis by (simp add: in_window_def)
  next
    case False
    then have "in_window a (granted @ [now]) = in_window a granted"
      by (auto simp: in_window_def)
    then show ?thesis using W by simp
  qed
  show ?thesis
    unfolding run rl_inv_def prod.case using 1 3 4 by (simp add: read_timestamps_def)
qed

lemma rl_cap_step:
  assumes cap: "rl_cap (rpm_of cfg) t0 f" and le: "t0 \<le> now"
  shows "rl_cap (rpm_of cfg) now (fst (throttle_run cfg [now] (f, granted)))"
proof (cases "length (live now (read_timestamps f)) \<ge> rpm_of cfg")
  case True
  then have "fst (throttle_run cfg [now] (f, granted)) = f"
    by (simp add: throttle_run_one del: throttle_run.simps)
  moreover have "rl_cap (rpm_of cfg) now f"
    using cap le unfolding rl_cap_def by (meson order_trans)
  ultimately show ?thesis by simp
next
  case False
  let ?ts = "read_timestamps f"
  have lt: "length (live now ?ts) < rpm_of cfg" using False by simp
  have run: "fst (throttle_run cfg [now] (f, granted)) = Timestamps (live now ?ts @ [now])"
    using False by (simp add: throttle_run_one del: throttle_run.simps)
  have "length (live T (live now ?ts @ [now])) \<le> rpm_of cfg" for T
  proof -
    have "length (live T (live now ?ts)) \<le> length (live now ?ts)"
      unfolding live_def by (rule length_filter_le)
    moreover have "length (live T (live now ?ts @ [now])) \<le> Suc (length (live T (live now ?ts)))"
      unfolding live_def by simp
    ultimately show ?thesis using lt by linarith
  qed
  then show ?thesis unfolding run rl_cap_def by (simp add: read_timestamps_def)
qed

lemma throttle_run_Cons:
  "throttle_run cfg (now # nows) s = throttle_run cfg nows (throttle_run cfg [now] s)"
  by (cases s) (auto split: prod.splits attempt.splits)

lemma rl_inv_run:
  assumes "rl_inv (rpm_of cfg) t0 s" "sorted (t0 # nows)"
  shows "rl_inv (rpm_of cfg) (last (t0 # nows)) (throttle_run cfg nows s)"
  using assms
proof (induction nows arbitrary: t0 s)
  case Nil
  then show ?case by simp
next
  case (Cons now nows)
  obtain f granted where s: "s = (f, granted)" by (cases s)
  have "rl_inv (rpm_of cfg) now (throttle_run cfg [now] (f, granted))"
    using Cons.prems s by (intro rl_inv_step) auto
  moreover have "sorted (now # nows)" using Cons.prems by simp
  ultimately have "rl_inv (rpm_of cfg) (last (now # nows))
                     (throttle_run cfg nows (throttle_run cfg [now] s))"
    using s Cons.IH by blast
  then show ?case by (simp add: throttle_run_Cons[of cfg now nows s] del: throttle_run.simps)
qed

lemma rl_cap_run:
  assumes "rl_cap (rpm_of cfg) t0 (fst s)" "sorted (t0 # nows)"
  shows "rl_cap (rpm_of cfg) (last (t0 # nows)) (fst (throttle_run cfg nows s))"
  using assms
proof (induction nows arbitrary: t0 s)
  case Nil
  then show ?case by simp
next
  case (Cons now nows)
  obtain f granted where s: "s = (f, granted)" by (cases s)
  have "rl_cap (rpm_of cfg) now (fst (throttle_run cfg [now] (f, granted)))"
    using Cons.prems s by (intro rl_cap_step) auto
  moreover have "sorted (now # nows)" using Cons.prems by simp
  ultimately have "rl_cap (rpm_of cfg) (last (now # nows))
                     (fst (throttle_run cfg nows (throttle_run cfg [now] s)))"
    using s Cons.IH by blast
  then show ?case by (simp add: throttle_run_Cons[of cfg now nows s] del: throttle_run.simps)
qed

lemma rl_inv_start: "rl_inv rpm t0 (f0, [])"
  by (simp add: rl_inv_def live_def in_window_def)

lemma rl_cap_start:
  assumes "length (read_timestamps f0) \<le> rpm"
  shows "rl_cap rpm t0 f0"
proof -
  have "length (live T (read_timestamps f0)) \<le> length (read_timestamps f0)" for T
    unfolding live_def by (rule length_filter_le)
  then show ?thesis using assms unfolding rl_cap_def by (meson order_trans)
qed

text \<open>
  Claim C6 as stated fails, in three ways. With \<open>API_RATE_LIMIT_RPM = 0\<close> the limiter
  works with \<open>max(1, 0) = 1\<close> and grants a reservation, one more than RPM. With RPM 2
  and a clock that steps back (readings 0, 1, 61, 2 in lock order) four reservations
  are granted, three of them in the window from 0 to 60. And a state file that holds
  three timestamps younger than 60 seconds at RPM 2 keeps them: the pass asks to wait
  and leaves the file as it is, with a live count above RPM.
\<close>

theorem rate_limit_counterexample:
  "API_RATE_LIMIT_RPM config_rpm0 = 0
   \<and> in_window 5 (snd (throttle_run config_rpm0 [5] (NoFile, []))) = [5]
   \<and> API_RATE_LIMIT_RPM config_rpm2 = 2
   \<and> in_window 0 (snd (throttle_run config_rpm2 [0, 1, 61, 2] (NoFile, []))) = [0, 1, 2]
   \<and> throttle_attempt config_rpm2 10 (Timestamps [7, 8, 9]) = (Wait 57, Timestamps [7, 8, 9])
   \<and> live 10 (read_timestamps (Timestamps [7, 8, 9])) = [7, 8, 9]"
  by (simp add: config_rpm0_def config_rpm2_def default_config_def throttle_attempt_def rpm_of_def
      warn_threshold_of_def read_timestamps_def live_def in_window_def Let_def)

text \<open>
  Claim C6, amended. Take any run of the passes of all processes through the critical
  section, with clock values that do not decrease in lock order, from any state file.
  Then every window of 60 seconds holds at most \<open>max(1, RPM)\<close> reservations granted
  in the run. When the state file starts with at most \<open>max(1, RPM)\<close> timestamps, it
  holds at most \<open>max(1, RPM)\<close> timestamps younger than 60 seconds at any time from the
  last pass on. A pass that finds \<open>max(1, RPM)\<close> or more such timestamps leaves the
  file as it is and asks the caller to wait at least half a second before it tries
  again.
\<close>

theorem rate_limit_window:
  assumes "sorted nows"
  shows "(\<forall>a. length (in_window a (snd (throttle_run cfg nows (f0, []))))
               \<le> nat (max 1 (API_RATE_LIMIT_RPM cfg)))
       \<and> (length (read_timestamps f0) \<le> nat (max 1 (API_RATE_LIMIT_RPM cfg)) \<longrightarrow>
            (\<forall>T. (\<forall>n \<in> set nows. n \<le> T) \<longrightarrow>
               length (live T (read_timestamps (fst (throttle_run cfg nows (f0, [])))))
                 \<le> nat (max 1 (API_RATE_LIMIT_RPM cfg))))
       \<and> (\<forall>now f. nat (max 1 (API_RATE_LIMIT_RPM cfg)) \<le> length (live now (read_timestamps f)) \<longrightarrow>
              (\<exists>w. w \<ge> 1 / 2 \<and> throttle_attempt cfg now f = (Wait w, f)))"
proof -
  let ?s = "throttle_run cfg nows (f0, [])"
  let ?R = "rpm_of cfg"
  have a: "\<forall>a. length (in_window a (snd ?s)) \<le> ?R"
  proof (cases nows)
    case Nil
    then show ?thesis by (simp add: in_window_def)
  next
    case (Cons n ns)
    obtain f granted where s: "?s = (f, granted)" by (cases ?s)
    have "rl_inv ?R n (f0, [])" by (rule rl_inv_start)
    moreover have "sorted (n # nows)" using assms Cons by simp
    ultimately have "rl_inv ?R (last (n # nows)) ?s" by (rule rl_inv_run)
    then have "rl_inv ?R (last nows) (f, granted)" using Cons s by simp
    from rl_invD(3)[OF this] show ?thesis using s by simp
  qed
  have b: "\<forall>T. (\<forall>n \<in> set nows. n \<le> T) \<longrightarrow> length (live T (read_timestamps (fst ?s))) \<le> ?R"
    if small: "length (read_timestamps f0) \<le> ?R"
  proof (cases nows)
    case Nil
    have "length (live T (read_timestamps f0)) \<le> length (read_timestamps f0)" for T
      unfolding live_def by (rule length_filter_le)
    then show ?thesis using Nil small by (auto intro: order_trans)
  next
    case (Cons n ns)
    have "rl_cap ?R n (fst (f0, ([]::real list)))" using small by (simp add: rl_cap_start)
    moreover have "sorted (n # nows)" using assms Cons by simp
    ultimately have "rl_cap ?R (last (n # nows)) (fst ?s)" by (rule rl_cap_run)
    then have cap: "rl_cap ?R (last nows) (fst ?s)" using Cons by simp
    have "last nows \<in> set nows" using Cons by simp
    then show ?thesis using cap unfolding rl_cap_def by blast
  qed
  have c: "\<forall>now f. ?R \<le> length (live now (read_timestamps f)) \<longrightarrow>
              (\<exists>w. w \<ge> 1 / 2 \<and> throttle_attempt cfg now f = (Wait w, f))"
  proof (intro allI impI)
    fix now f
    assume "?R \<le> length (live now (read_timestamps f))"
    then have "throttle_attempt cfg now f
                 = (Wait (max (1 / 2) (60 - (now - min_list (live now (read_timestamps f))))), f)"
      by (rule throttle_attempt_full)
    moreover have "max (1 / 2) (60 - (now - min_list (live now (read_timestamps f)))) \<ge> 1 / 2"
      by (rule max.cobounded1)
    ultimately show "\<exists>w. w \<ge> 1 / 2 \<and> throttle_attempt cfg now f = (Wait w, f)"
      by blast
  qed
  from a b c show ?thesis unfolding rpm_of_def by blast
qed

lemma run_rpm2:
  "throttle_run config_rpm2 [0, 1, 2, 59, 60, 61] (Timestamps [-5], [])
     = (Timestamps [59, 60], [0, 59, 60])"
  by (simp add: config_rpm2_def default_config_def throttle_attempt_def rpm_of_def
      warn_threshold_of_def read_timestamps_def live_def Let_def)

theorem rate_limit_window_witness:
  "sorted [0, 1, 2, 59, 60, 61 :: real]
   \<and> snd (throttle_run config_rpm2 [0, 1, 2, 59, 60, 61] (Timestamps [-5], [])) = [0, 59, 60]
   \<and> nat (max 1 (API_RATE_LIMIT_RPM config_rpm2)) = 2
   \<and> length (in_window 1 (snd (throttle_run config_rpm2 [0, 1, 2, 59, 60, 61] (Timestamps [-5], [])))) \<le> 2
   \<and> length (read_timestamps (Timestamps [-5])) \<le> 2
   \<and> length (live 61 (read_timestamps (fst (throttle_run config_rpm2 [0, 1, 2, 59, 60, 61]
         (Timestamps [-5], []))))) \<le> 2
   \<and> 2 \<le> length (live 2 (read_timestamps (Timestamps [0, 1])))
   \<and> fst (throttle_attempt config_rpm2 2 (Timestamps [0, 1])) = Wait 58"
proof -
  have 1: "sorted [0, 1, 2, 59, 60, 61 :: real]" by simp
  have 2: "length (read_timestamps (Timestamps [-5])) \<le> 2" by (simp add: read_timestamps_def)
  have 3: "nat (max 1 (API_RATE_LIMIT_RPM config_rpm2)) = 2"
    by (simp add: config_rpm2_def default_config_def)
  have 4: "\<forall>n \<in> set [0, 1, 2, 59, 60, 61 :: real]. n \<le> 61" by simp
  have 5: "2 \<le> length (live 2 (read_timestamps (Timestamps [0, 1])))"
    by (simp add: read_timestamps_def live_def)
  note T = rate_limit_window[OF 1, of config_rpm2 "Timestamps [-5]", unfolded 3]
  have a: "length (in_window 1 (snd (throttle_run config_rpm2 [0, 1, 2, 59, 60, 61]
             (Timestamps [-5], [])))) \<le> 2"
    using T by blast
  have b: "length (live 61 (read_timestamps (fst (throttle_run config_rpm2 [0, 1, 2, 59, 60, 61]
             (Timestamps [-5], []))))) \<le> 2"
    using T 2 4 by blast
  have "\<exists>w. w \<ge> 1 / 2 \<and> throttle_attempt config_rpm2 2 (Timestamps [0, 1]) = (Wait w, Timestamps [0, 1])"
    by (rule T[THEN conjunct2, THEN conjunct2, rule_format, OF 5])
  moreover have "fst (throttle_attempt config_rpm2 2 (Timestamps [0, 1])) = Wait 58"
    by (simp add: throttle_attempt_def rpm_of_def config_rpm2_def default_config_def
        read_timestamps_def live_def Let_def)
  ultimately have c: "fst (throttle_attempt config_rpm2 2 (Timestamps [0, 1])) = Wait 58" by blast
  show ?thesis using 1 2 3 5 a b c by (simp add: run_rpm2 del: throttle_run.simps)
qed

section \<open>Claims about \<open>write_files\<close>\<close>

















section \<open>Claims about \<open>parse_response\<close>\<close>















end
